theory Spec2Isabelle
  imports Complex_Main
begin

section \<open>Python values, exceptions and target functions\<close>

text \<open>
  The decorators of \<^verbatim>\<open>sew.py\<close> wrap arbitrary Python callables and pass arbitrary
  Python objects through.  A small universe of values is enough to follow them: a float
  is represented by the rational number it denotes.
\<close>

datatype pyval =
    PNone
  | PBool bool
  | PInt int
  | PFloat rat
  | PStr string
  | PTuple "pyval list"

type_synonym kwargs = "(string \<times> pyval) list"

datatype exn = TypeError | RuntimeError | OverflowError | OtherError string

text \<open>
  What one call \<^verbatim>\<open>function(*args, **kwargs)\<close> does, seen from outside: it returns a value,
  or raises, in both cases leaving a changed world (its side effects) after some seconds;
  or it never comes back.
\<close>

datatype 'w behaviour =
    Returns pyval 'w rat
  | Raises exn 'w rat
  | Hangs

type_synonym 'w pyfun = "pyval list \<Rightarrow> kwargs \<Rightarrow> 'w \<Rightarrow> 'w behaviour"

text \<open>The outcome of an operation of the calling thread.\<close>

datatype ('a, 's) result =
    Ret 'a 's
  | Exc exn 's
  | Hang

definition then_do :: "('a, 's) result \<Rightarrow> ('a \<Rightarrow> 's \<Rightarrow> ('b, 's) result) \<Rightarrow> ('b, 's) result" where
  "then_do r k = (case r of Ret a s \<Rightarrow> k a s | Exc e s \<Rightarrow> Exc e s | Hang \<Rightarrow> Hang)"

definition returned :: "('a, 's) result \<Rightarrow> 'a option" where
  "returned r = (case r of Ret a s \<Rightarrow> Some a | Exc e s \<Rightarrow> None | Hang \<Rightarrow> None)"

definition final :: "('a, 's) result \<Rightarrow> 's option" where
  "final r = (case r of Ret a s \<Rightarrow> Some s | Exc e s \<Rightarrow> Some s | Hang \<Rightarrow> None)"


section \<open>The threading runtime\<close>

text \<open>
  \<^verbatim>\<open>import threading\<close>: the module's \<^verbatim>\<open>Thread\<close> and \<^verbatim>\<open>Timer\<close> classes, as far as
  \<^verbatim>\<open>sew.py\<close> uses them (construction, the \<^verbatim>\<open>daemon\<close> attribute, \<^verbatim>\<open>start\<close>, \<^verbatim>\<open>join\<close>, \<^verbatim>\<open>run\<close>),
  and the two subclasses \<^verbatim>\<open>sew.py\<close> defines.  One record holds the attributes of all four
  classes; an attribute a class does not have keeps its default and is never read.
\<close>

datatype cls = Thread | Timer | FunctionThreadWithReturnValue | DelayedFunctionWithReturnValue

text \<open>
  The states of a background unit.  A unit is \<open>Started\<close> from \<^verbatim>\<open>start()\<close> until the scheduler
  lets its run body execute; the body is executed in one piece, so \<open>Running\<close> is only seen
  on a unit whose body never returns.
\<close>

datatype status = Created | Started | Running | Finished

record 'w thread_obj =
  cls :: cls
  thr_target :: "'w pyfun option"
  thr_args :: "pyval list"
  thr_kwargs :: kwargs
  thr_daemon :: bool
  thr_status :: status
  tmr_interval :: pyval
  tmr_function :: "'w pyfun"
  tmr_args :: "pyval list"
  tmr_kwargs :: kwargs
  tmr_finished :: bool
  sub_call :: "('w pyfun \<times> pyval list \<times> kwargs) option"
  return_value :: pyval
  started_at :: rat
  busy :: rat

datatype event =
    EvStart nat
  | EvJoinCalled nat
  | EvJoinReturned nat
  | EvWait nat pyval
  | EvSetFinished nat
  | EvCallTarget nat
  | EvCallFunction nat
  | EvCallCaptured nat
  | EvStore nat pyval
  | EvUnhandled nat exn

text \<open>
  The runtime: the thread objects (an object's identity is its index), the world the target
  functions act on, the calling thread's clock in seconds, the scheduler's choice for each
  unit (\<open>True\<close>: the unit's body runs as soon as it is started; \<open>False\<close>: it runs when
  somebody waits for it, or later), the chronological trace of what happened, and the
  \<^verbatim>\<open>daemon\<close> flag of the thread that is calling the library (\<^verbatim>\<open>current_thread().daemon\<close>).
\<close>

record 'w state =
  threads :: "'w thread_obj list"
  world :: 'w
  now :: rat
  sched :: "nat \<Rightarrow> bool"
  log :: "event list"
  caller_daemon :: bool

definition lambda_None :: "'w pyfun" where
  \<comment> \<open>\<^verbatim>\<open>lambda: None\<close>\<close>
  "lambda_None args kwargs w =
     (if args = [] \<and> kwargs = [] then Returns PNone w 0 else Raises TypeError w 0)"

definition obj :: "'w state \<Rightarrow> nat \<Rightarrow> 'w thread_obj" where
  "obj s t = threads s ! t"

definition upd :: "nat \<Rightarrow> ('w thread_obj \<Rightarrow> 'w thread_obj) \<Rightarrow> 'w state \<Rightarrow> 'w state" where
  "upd t f s = s\<lparr>threads := (threads s)[t := f (threads s ! t)]\<rparr>"

definition emit :: "event \<Rightarrow> 'w state \<Rightarrow> 'w state" where
  "emit e s = s\<lparr>log := log s @ [e]\<rparr>"

definition spend :: "nat \<Rightarrow> rat \<Rightarrow> 'w state \<Rightarrow> 'w state" where
  \<comment> \<open>unit \<open>t\<close> is busy for \<open>d\<close> more seconds; time does not run backwards\<close>
  "spend t d s = upd t (\<lambda>ob. ob\<lparr>busy := busy ob + max 0 d\<rparr>) s"

definition alloc :: "'w thread_obj \<Rightarrow> 'w state \<Rightarrow> nat \<times> 'w state" where
  "alloc ob s = (length (threads s), s\<lparr>threads := threads s @ [ob]\<rparr>)"

definition invoke :: "nat \<Rightarrow> 'w pyfun \<Rightarrow> pyval list \<Rightarrow> kwargs \<Rightarrow> 'w state \<Rightarrow> (pyval, 'w state) result" where
  \<comment> \<open>\<^verbatim>\<open>f(*args, **kwargs)\<close>, called on unit \<open>t\<close>\<close>
  "invoke t f args kwargs s =
     (case f args kwargs (world s) of
        Returns v w d \<Rightarrow> Ret v (spend t d (s\<lparr>world := w\<rparr>))
      | Raises e w d \<Rightarrow> Exc e (spend t d (s\<lparr>world := w\<rparr>))
      | Hangs \<Rightarrow> Hang)"

subsection \<open>Construction\<close>

definition Thread_new :: "bool \<Rightarrow> 'w thread_obj" where
  \<comment> \<open>\<^verbatim>\<open>Thread.__init__(self)\<close> with no argument: the new object takes the \<^verbatim>\<open>daemon\<close> flag of
      the thread that creates it\<close>
  "Thread_new current_daemon =
     \<lparr> cls = Thread, thr_target = None, thr_args = [], thr_kwargs = [],
       thr_daemon = current_daemon,
       thr_status = Created, tmr_interval = PNone, tmr_function = lambda_None, tmr_args = [],
       tmr_kwargs = [], tmr_finished = False, sub_call = None, return_value = PNone,
       started_at = 0, busy = 0 \<rparr>"

definition Thread_init :: "'w pyfun \<Rightarrow> pyval list \<Rightarrow> kwargs \<Rightarrow> 'w state \<Rightarrow> nat \<times> 'w state" where
  \<comment> \<open>\<^verbatim>\<open>threading.Thread(target=function, args=args, kwargs=kwargs)\<close>\<close>
  "Thread_init function args kwargs s =
     alloc ((Thread_new (caller_daemon s))
       \<lparr>thr_target := Some function, thr_args := args, thr_kwargs := kwargs\<rparr>) s"

definition Timer_new ::
  "bool \<Rightarrow> pyval \<Rightarrow> 'w pyfun \<Rightarrow> pyval list \<Rightarrow> kwargs \<Rightarrow> 'w thread_obj" where
  \<comment> \<open>\<^verbatim>\<open>Timer.__init__\<close>: \<^verbatim>\<open>Thread.__init__(self)\<close>, then the interval is stored as it comes,
      unchecked\<close>
  "Timer_new current_daemon seconds function args kwargs =
     (Thread_new current_daemon)\<lparr>cls := Timer, tmr_interval := seconds, tmr_function := function,
       tmr_args := args, tmr_kwargs := kwargs, tmr_finished := False\<rparr>"

definition Timer_init :: "pyval \<Rightarrow> 'w pyfun \<Rightarrow> pyval list \<Rightarrow> kwargs \<Rightarrow> 'w state \<Rightarrow> nat \<times> 'w state" where
  \<comment> \<open>\<^verbatim>\<open>threading.Timer(seconds, function=function, args=args, kwargs=kwargs)\<close>\<close>
  "Timer_init seconds function args kwargs s =
     alloc (Timer_new (caller_daemon s) seconds function args kwargs) s"

definition FunctionThreadWithReturnValue_init ::
  "'w pyfun \<Rightarrow> pyval list \<Rightarrow> kwargs \<Rightarrow> 'w state \<Rightarrow> nat \<times> 'w state" where
  "FunctionThreadWithReturnValue_init function args kwargs s =
     alloc ((Thread_new (caller_daemon s))\<lparr>cls := FunctionThreadWithReturnValue,
       sub_call := Some (function, args, kwargs), return_value := PNone\<rparr>) s"

definition DelayedFunctionWithReturnValue_init ::
  "pyval \<Rightarrow> 'w pyfun \<Rightarrow> pyval list \<Rightarrow> kwargs \<Rightarrow> 'w state \<Rightarrow> nat \<times> 'w state" where
  "DelayedFunctionWithReturnValue_init seconds function args kwargs s =
     alloc ((Timer_new (caller_daemon s) seconds lambda_None [] [])
       \<lparr>cls := DelayedFunctionWithReturnValue,
       sub_call := Some (function, args, kwargs), return_value := PNone\<rparr>) s"

subsection \<open>Run bodies\<close>

definition Thread_run :: "nat \<Rightarrow> 'w state \<Rightarrow> (unit, 'w state) result" where
  \<comment> \<open>\<^verbatim>\<open>Thread.run\<close>: call the target, if there is one\<close>
  "Thread_run t s =
     (case thr_target (obj s t) of
        None \<Rightarrow> Ret () s
      | Some f \<Rightarrow>
          then_do (invoke t f (thr_args (obj s t)) (thr_kwargs (obj s t)) (emit (EvCallTarget t) s))
            (\<lambda>v s1. Ret () s1))"

definition number :: "pyval \<Rightarrow> rat option" where
  \<comment> \<open>the values Python compares with \<^verbatim>\<open>0\<close>: \<^verbatim>\<open>bool\<close>, \<^verbatim>\<open>int\<close> and \<^verbatim>\<open>float\<close>\<close>
  "number v =
     (case v of
        PBool b \<Rightarrow> Some (if b then 1 else 0)
      | PInt n \<Rightarrow> Some (of_int n)
      | PFloat q \<Rightarrow> Some q
      | _ \<Rightarrow> None)"

definition TIMEOUT_MAX :: rat where
  \<comment> \<open>\<^verbatim>\<open>threading.TIMEOUT_MAX\<close>, the longest timeout a lock accepts, in seconds (its value on
      64-bit Linux)\<close>
  "TIMEOUT_MAX = 9223372036"

definition Event_wait :: "nat \<Rightarrow> pyval \<Rightarrow> 'w state \<Rightarrow> (unit, 'w state) result" where
  \<comment> \<open>\<^verbatim>\<open>self.finished.wait(timeout)\<close> on the timer \<open>t\<close>, whose flag nobody else sets:
      \<^verbatim>\<open>None\<close> waits for ever; anything but a number fails the comparison \<^verbatim>\<open>timeout > 0\<close>;
      a positive number is handed to the lock, which refuses one above
      \<^verbatim>\<open>TIMEOUT_MAX\<close> and otherwise waits that long; any other number does not wait\<close>
  "Event_wait t timeout s =
     (if tmr_finished (obj s t) then Ret () s
      else if timeout = PNone then Hang
      else case number timeout of
        None \<Rightarrow> Exc TypeError s
      | Some q \<Rightarrow>
          if 0 < q \<and> TIMEOUT_MAX < q then Exc OverflowError s
          else Ret () (spend t q (emit (EvWait t timeout) s)))"

definition Timer_run :: "nat \<Rightarrow> 'w state \<Rightarrow> (unit, 'w state) result" where
  \<comment> \<open>\<^verbatim>\<open>Timer.run\<close>: wait for the interval, call the function unless cancelled, set the flag\<close>
  "Timer_run t s =
     then_do (Event_wait t (tmr_interval (obj s t)) s) (\<lambda>_ s1.
     then_do (if \<not> tmr_finished (obj s1 t)
              then invoke t (tmr_function (obj s1 t)) (tmr_args (obj s1 t)) (tmr_kwargs (obj s1 t))
                     (emit (EvCallFunction t) s1)
              else Ret PNone s1) (\<lambda>_ s2.
     Ret () (emit (EvSetFinished t) (upd t (\<lambda>ob. ob\<lparr>tmr_finished := True\<rparr>) s2))))"

definition capture :: "nat \<Rightarrow> 'w state \<Rightarrow> (unit, 'w state) result" where
  \<comment> \<open>\<^verbatim>\<open>function, args, kwargs = self._call; self.return_value = function(*args, **kwargs)\<close>\<close>
  "capture t s =
     (case sub_call (obj s t) of
        None \<Rightarrow> Exc TypeError s
      | Some (function, args, kwargs) \<Rightarrow>
          then_do (invoke t function args kwargs (emit (EvCallCaptured t) s)) (\<lambda>v s1.
          Ret () (emit (EvStore t v) (upd t (\<lambda>ob. ob\<lparr>return_value := v\<rparr>) s1))))"

definition FunctionThreadWithReturnValue_run :: "nat \<Rightarrow> 'w state \<Rightarrow> (unit, 'w state) result" where
  "FunctionThreadWithReturnValue_run t s = capture t s"

definition DelayedFunctionWithReturnValue_run :: "nat \<Rightarrow> 'w state \<Rightarrow> (unit, 'w state) result" where
  "DelayedFunctionWithReturnValue_run t s =
     then_do (Timer_run t s) (\<lambda>_ s1. capture t s1)"

definition run :: "nat \<Rightarrow> 'w state \<Rightarrow> (unit, 'w state) result" where
  \<comment> \<open>\<^verbatim>\<open>self.run()\<close>, dispatched on the object's class\<close>
  "run t s =
     (case cls (obj s t) of
        Thread \<Rightarrow> Thread_run t s
      | Timer \<Rightarrow> Timer_run t s
      | FunctionThreadWithReturnValue \<Rightarrow> FunctionThreadWithReturnValue_run t s
      | DelayedFunctionWithReturnValue \<Rightarrow> DelayedFunctionWithReturnValue_run t s)"

subsection \<open>Start and join\<close>

definition bootstrap :: "nat \<Rightarrow> 'w state \<Rightarrow> 'w state" where
  \<comment> \<open>the life of unit \<open>t\<close> on its own thread: the run body, an exception that escapes it
      goes to the runtime's hook and no further\<close>
  "bootstrap t s =
     (case run t s of
        Ret _ s1 \<Rightarrow> upd t (\<lambda>ob. ob\<lparr>thr_status := Finished\<rparr>) s1
      | Exc e s1 \<Rightarrow> upd t (\<lambda>ob. ob\<lparr>thr_status := Finished\<rparr>) (emit (EvUnhandled t e) s1)
      | Hang \<Rightarrow> upd t (\<lambda>ob. ob\<lparr>thr_status := Running\<rparr>) s)"

definition Thread_start :: "nat \<Rightarrow> 'w state \<Rightarrow> (unit, 'w state) result" where
  "Thread_start t s =
     (if \<not> t < length (threads s) then Exc RuntimeError s
      else if thr_status (obj s t) \<noteq> Created then Exc RuntimeError s
      else let s1 = emit (EvStart t)
                      (upd t (\<lambda>ob. ob\<lparr>thr_status := Started, started_at := now s\<rparr>) s)
           in Ret () (if sched s t then bootstrap t s1 else s1))"

definition Thread_join :: "nat \<Rightarrow> 'w state \<Rightarrow> (unit, 'w state) result" where
  "Thread_join t s =
     (if \<not> t < length (threads s) then Exc RuntimeError s
      else if thr_status (obj s t) = Created then Exc RuntimeError (emit (EvJoinCalled t) s)
      else let s0 = emit (EvJoinCalled t) s;
               s1 = (if thr_status (obj s0 t) = Started then bootstrap t s0 else s0)
           in if thr_status (obj s1 t) = Finished
              then Ret () (emit (EvJoinReturned t)
                     (s1\<lparr>now := max (now s1) (started_at (obj s1 t) + busy (obj s1 t))\<rparr>))
              else Hang)"

definition set_daemon :: "nat \<Rightarrow> bool \<Rightarrow> 'w state \<Rightarrow> (unit, 'w state) result" where
  \<comment> \<open>\<^verbatim>\<open>thread.daemon = b\<close>\<close>
  "set_daemon t b s =
     (if \<not> t < length (threads s) then Exc RuntimeError s
      else if thr_status (obj s t) \<noteq> Created then Exc RuntimeError s
      else Ret () (upd t (\<lambda>ob. ob\<lparr>thr_daemon := b\<rparr>) s))"


section \<open>The decorators of sew.py\<close>

text \<open>
  Each decorator is given with the function it wraps and the arguments of one call of the
  wrapper: \<open>thread f args kwargs\<close> is \<^verbatim>\<open>thread(f)(*args, **kwargs)\<close>, and
  \<open>delay seconds f args kwargs\<close> is \<^verbatim>\<open>delay(seconds)(f)(*args, **kwargs)\<close>.  A Python
  function that ends without \<^verbatim>\<open>return\<close> returns \<^verbatim>\<open>None\<close>.
\<close>

definition thread :: "'w pyfun \<Rightarrow> pyval list \<Rightarrow> kwargs \<Rightarrow> 'w state \<Rightarrow> (pyval, 'w state) result" where
  "thread function args kwargs s =
     (case Thread_init function args kwargs s of (t, s1) \<Rightarrow>
      then_do (Thread_start t s1) (\<lambda>_ s2.
      Ret PNone s2))"

definition thread_join :: "'w pyfun \<Rightarrow> pyval list \<Rightarrow> kwargs \<Rightarrow> 'w state \<Rightarrow> (pyval, 'w state) result" where
  "thread_join function args kwargs s =
     (case Thread_init function args kwargs s of (t, s1) \<Rightarrow>
      then_do (Thread_start t s1) (\<lambda>_ s2.
      then_do (Thread_join t s2) (\<lambda>_ s3.
      Ret PNone s3)))"

definition thread_daemon :: "'w pyfun \<Rightarrow> pyval list \<Rightarrow> kwargs \<Rightarrow> 'w state \<Rightarrow> (pyval, 'w state) result" where
  "thread_daemon function args kwargs s =
     (case Thread_init function args kwargs s of (t, s1) \<Rightarrow>
      then_do (set_daemon t True s1) (\<lambda>_ s2.
      then_do (Thread_start t s2) (\<lambda>_ s3.
      Ret PNone s3)))"

definition thread_with_return_value ::
  "'w pyfun \<Rightarrow> pyval list \<Rightarrow> kwargs \<Rightarrow> 'w state \<Rightarrow> (pyval, 'w state) result" where
  "thread_with_return_value function args kwargs s =
     (case FunctionThreadWithReturnValue_init function args kwargs s of (t, s1) \<Rightarrow>
      then_do (Thread_start t s1) (\<lambda>_ s2.
      then_do (Thread_join t s2) (\<lambda>_ s3.
      Ret PNone s3)))"

definition delay ::
  "pyval \<Rightarrow> 'w pyfun \<Rightarrow> pyval list \<Rightarrow> kwargs \<Rightarrow> 'w state \<Rightarrow> (pyval, 'w state) result" where
  "delay seconds function args kwargs s =
     (case Timer_init seconds function args kwargs s of (t, s1) \<Rightarrow>
      then_do (Thread_start t s1) (\<lambda>_ s2.
      Ret PNone s2))"

definition delay_join ::
  "pyval \<Rightarrow> 'w pyfun \<Rightarrow> pyval list \<Rightarrow> kwargs \<Rightarrow> 'w state \<Rightarrow> (pyval, 'w state) result" where
  "delay_join seconds function args kwargs s =
     (case Timer_init seconds function args kwargs s of (t, s1) \<Rightarrow>
      then_do (Thread_start t s1) (\<lambda>_ s2.
      then_do (Thread_join t s2) (\<lambda>_ s3.
      Ret PNone s3)))"

definition delay_daemon ::
  "pyval \<Rightarrow> 'w pyfun \<Rightarrow> pyval list \<Rightarrow> kwargs \<Rightarrow> 'w state \<Rightarrow> (pyval, 'w state) result" where
  "delay_daemon seconds function args kwargs s =
     (case Timer_init seconds function args kwargs s of (t, s1) \<Rightarrow>
      then_do (set_daemon t True s1) (\<lambda>_ s2.
      then_do (Thread_start t s2) (\<lambda>_ s3.
      Ret PNone s3)))"

definition delay_with_return_value ::
  "pyval \<Rightarrow> 'w pyfun \<Rightarrow> pyval list \<Rightarrow> kwargs \<Rightarrow> 'w state \<Rightarrow> (pyval, 'w state) result" where
  "delay_with_return_value seconds function args kwargs s =
     (case DelayedFunctionWithReturnValue_init seconds function args kwargs s of (t, s1) \<Rightarrow>
      then_do (Thread_start t s1) (\<lambda>_ s2.
      then_do (Thread_join t s2) (\<lambda>_ s3.
      Ret (return_value (obj s3 t)) s3)))"


section \<open>Vocabulary of the properties\<close>

definition initial :: "'w \<Rightarrow> (nat \<Rightarrow> bool) \<Rightarrow> 'w state" where
  \<comment> \<open>a program that has not created any unit yet, on its main thread\<close>
  "initial w choice =
     \<lparr>threads = [], world = w, now = 0, sched = choice, log = [], caller_daemon = False\<rparr>"

definition fresh :: "'w state \<Rightarrow> nat" where
  \<comment> \<open>the identity of the next object constructed\<close>
  "fresh s = length (threads s)"

definition new_events :: "'w state \<Rightarrow> 'w state \<Rightarrow> event list" where
  \<comment> \<open>what happened between the state \<open>s\<close> and the later state \<open>s'\<close>\<close>
  "new_events s s' = drop (length (log s)) (log s')"

fun is_join :: "event \<Rightarrow> bool" where
  "is_join (EvJoinCalled t) = True"
| "is_join (EvJoinReturned t) = True"
| "is_join e = False"

fun unit_of :: "event \<Rightarrow> nat" where
  "unit_of (EvStart t) = t"
| "unit_of (EvJoinCalled t) = t"
| "unit_of (EvJoinReturned t) = t"
| "unit_of (EvWait t v) = t"
| "unit_of (EvSetFinished t) = t"
| "unit_of (EvCallTarget t) = t"
| "unit_of (EvCallFunction t) = t"
| "unit_of (EvCallCaptured t) = t"
| "unit_of (EvStore t v) = t"
| "unit_of (EvUnhandled t e) = t"

fun stores :: "nat \<Rightarrow> event list \<Rightarrow> pyval list" where
  \<comment> \<open>the values written to the result slot of unit \<open>t\<close>, in order\<close>
  "stores t [] = []"
| "stores t (EvStore u v # es) = (if u = t then v # stores t es else stores t es)"
| "stores t (e # es) = stores t es"

fun well_stored :: "nat option \<Rightarrow> event list \<Rightarrow> bool" where
  \<comment> \<open>every write to a result slot comes right after the captured call of the same unit;
      the first argument is the unit whose captured call was the event before, if it was one\<close>
  "well_stored c [] = True"
| "well_stored c (EvCallCaptured t # es) = well_stored (Some t) es"
| "well_stored c (EvStore t v # es) = (c = Some t \<and> well_stored None es)"
| "well_stored c (e # es) = well_stored None es"

definition slot_ok :: "'w state \<Rightarrow> nat \<Rightarrow> bool" where
  \<comment> \<open>the result slot of unit \<open>t\<close> is still empty and was never written, or it was written
      once, holds what was written, and the unit has finished\<close>
  "slot_ok s t =
     (case stores t (log s) of
        [] \<Rightarrow> return_value (obj s t) = PNone
      | [v] \<Rightarrow> return_value (obj s t) = v \<and> thr_status (obj s t) = Finished
      | _ \<Rightarrow> False)"

definition thread_for :: "'w pyfun \<Rightarrow> pyval list \<Rightarrow> kwargs \<Rightarrow> 'w thread_obj \<Rightarrow> bool" where
  \<comment> \<open>a plain \<^verbatim>\<open>Thread\<close> whose run body is the call \<^verbatim>\<open>f(*args, **kwargs)\<close>\<close>
  "thread_for f args kwargs ob =
     (cls ob = Thread \<and> thr_target ob = Some f \<and> thr_args ob = args \<and> thr_kwargs ob = kwargs)"

definition timer_for ::
  "pyval \<Rightarrow> 'w pyfun \<Rightarrow> pyval list \<Rightarrow> kwargs \<Rightarrow> 'w thread_obj \<Rightarrow> bool" where
  \<comment> \<open>a plain \<^verbatim>\<open>Timer\<close> that calls \<^verbatim>\<open>f(*args, **kwargs)\<close> after \<open>seconds\<close>\<close>
  "timer_for seconds f args kwargs ob =
     (cls ob = Timer \<and> tmr_interval ob = seconds \<and> tmr_function ob = f \<and>
      tmr_args ob = args \<and> tmr_kwargs ob = kwargs)"

definition fire_and_forget ::
  "('w thread_obj \<Rightarrow> bool) \<Rightarrow> bool \<Rightarrow> 'w state \<Rightarrow> (pyval, 'w state) result \<Rightarrow> bool" where
  \<comment> \<open>a call made in \<open>s\<close> came back at once with \<^verbatim>\<open>None\<close>: a unit of the kind \<open>P\<close> was created
      and started, nothing was joined, no time passed for the caller\<close>
  "fire_and_forget P d s r =
     (case r of
        Ret v s' \<Rightarrow>
          v = PNone \<and> now s' = now s \<and> length (threads s') = Suc (fresh s) \<and>
          P (obj s' (fresh s)) \<and>
          thr_status (obj s' (fresh s)) \<noteq> Created \<and> thr_daemon (obj s' (fresh s)) = d \<and>
          EvStart (fresh s) \<in> set (new_events s s') \<and> \<not> list_ex is_join (new_events s s')
      | Exc e s' \<Rightarrow> False
      | Hang \<Rightarrow> False)"

definition let_run :: "nat \<Rightarrow> 'w state \<Rightarrow> 'w state" where
  \<comment> \<open>the scheduler lets unit \<open>t\<close> run, if it has not done so yet\<close>
  "let_run t s = (if thr_status (obj s t) = Started then bootstrap t s else s)"

definition then_runs ::
  "event \<Rightarrow> 'w behaviour \<Rightarrow> 'w state \<Rightarrow> (pyval, 'w state) result \<Rightarrow> bool" where
  \<comment> \<open>once the scheduler has let the unit created by a call made in \<open>s\<close> run, the unit has
      made the call \<open>ev\<close>, which behaved as \<open>b\<close>: its side effects are there and the unit has
      finished (an exception went to the runtime's hook), or the unit is running for ever\<close>
  "then_runs ev b s r =
     (case r of
        Ret v s' \<Rightarrow>
          (let u = fresh s; s2 = let_run u s' in
           case b of
             Returns x w d \<Rightarrow>
               world s2 = w \<and> thr_status (obj s2 u) = Finished \<and> ev \<in> set (new_events s s2)
           | Raises e w d \<Rightarrow>
               world s2 = w \<and> thr_status (obj s2 u) = Finished \<and> ev \<in> set (new_events s s2) \<and>
               EvUnhandled u e \<in> set (new_events s s2)
           | Hangs \<Rightarrow> thr_status (obj s2 u) = Running)
      | Exc e s' \<Rightarrow> False
      | Hang \<Rightarrow> False)"

definition outcome :: "'w behaviour \<Rightarrow> ('w \<times> rat) option" where
  \<comment> \<open>the world a call leaves and the seconds it took, when it comes back at all\<close>
  "outcome b = (case b of Returns v w d \<Rightarrow> Some (w, d) | Raises e w d \<Rightarrow> Some (w, d) | Hangs \<Rightarrow> None)"

definition waited_for :: "event \<Rightarrow> 'w \<Rightarrow> rat \<Rightarrow> 'w state \<Rightarrow> (pyval, 'w state) result \<Rightarrow> bool" where
  \<comment> \<open>a call made in \<open>s\<close> came back with \<^verbatim>\<open>None\<close> after the new unit had made the call
      \<open>ev\<close>, had left the world \<open>w\<close> and had finished, at least \<open>d\<close> seconds later\<close>
  "waited_for ev w d s r =
     (case r of
        Ret v s' \<Rightarrow>
          v = PNone \<and> world s' = w \<and> thr_status (obj s' (fresh s)) = Finished \<and>
          now s + d \<le> now s' \<and> new_events s s' \<noteq> [] \<and>
          last (new_events s s') = EvJoinReturned (fresh s) \<and>
          ev \<in> set (butlast (new_events s s'))
      | Exc e s' \<Rightarrow> False
      | Hang \<Rightarrow> False)"

definition observe :: "(pyval, 'w state) result \<Rightarrow> (pyval \<times> 'w \<times> rat \<times> event list) option" where
  \<comment> \<open>what a call that came back left: its value, the world, the caller's clock, the trace\<close>
  "observe r =
     (case r of
        Ret v s \<Rightarrow> Some (v, world s, now s, log s)
      | Exc e s \<Rightarrow> None
      | Hang \<Rightarrow> None)"

definition on_demand :: "nat \<Rightarrow> bool" where
  \<comment> \<open>the scheduler that runs a unit only when somebody waits for it\<close>
  "on_demand t = False"

definition at_once :: "nat \<Rightarrow> bool" where
  \<comment> \<open>the scheduler that runs every unit as soon as it is started\<close>
  "at_once t = True"

definition malformed :: "pyval \<Rightarrow> bool" where
  \<comment> \<open>neither a number nor \<^verbatim>\<open>None\<close>\<close>
  "malformed v = (v \<noteq> PNone \<and> number v = None)"


inductive library_op ::
  "('w pyfun \<Rightarrow> pyval list \<Rightarrow> kwargs \<Rightarrow> 'w state \<Rightarrow> (pyval, 'w state) result) \<Rightarrow> bool" where
  "library_op thread"
| "library_op thread_join"
| "library_op thread_daemon"
| "library_op thread_with_return_value"
| "library_op (delay seconds)"
| "library_op (delay_join seconds)"
| "library_op (delay_daemon seconds)"
| "library_op (delay_with_return_value seconds)"

text \<open>
  The states a program reaches that uses the library and nothing else of \<^verbatim>\<open>threading\<close>: it
  calls decorated functions one after the other, from daemon and non-daemon threads, while
  the scheduler lets started units run whenever it likes.
\<close>

inductive reachable :: "'w state \<Rightarrow> bool" where
  start: "reachable (initial w choice)"
| call: "reachable s \<Longrightarrow> library_op op \<Longrightarrow> final (op f args kwargs s) = Some s' \<Longrightarrow> reachable s'"
| background: "reachable s \<Longrightarrow> t < length (threads s) \<Longrightarrow> thr_status (obj s t) = Started \<Longrightarrow>
    reachable (bootstrap t s)"
| reschedule: "reachable s \<Longrightarrow> reachable (s\<lparr>sched := choice\<rparr>)"
| other_thread: "reachable s \<Longrightarrow> reachable (s\<lparr>caller_daemon := d\<rparr>)"


section \<open>Example targets\<close>

definition square :: "'w pyfun" where
  \<comment> \<open>\<^verbatim>\<open>def square(x): return x * x\<close>\<close>
  "square args kwargs w =
     (case (args, kwargs) of
        ([PInt x], []) \<Rightarrow> Returns (PInt (x * x)) w 0
      | _ \<Rightarrow> Raises TypeError w 0)"

definition bump :: "int pyfun" where
  \<comment> \<open>increments a shared counter, which takes a second, and returns the new count\<close>
  "bump args kwargs w = Returns (PInt (w + 1)) (w + 1) 1"

definition nothing :: "'w pyfun" where
  \<comment> \<open>\<^verbatim>\<open>def nothing(*args, **kwargs): return None\<close>\<close>
  "nothing args kwargs w = Returns PNone w 0"

definition faulty :: "'w pyfun" where
  \<comment> \<open>\<^verbatim>\<open>def faulty(*args, **kwargs): raise ValueError\<close>\<close>
  "faulty args kwargs w = Raises (OtherError ''ValueError'') w 0"

definition forever :: "'w pyfun" where
  \<comment> \<open>\<^verbatim>\<open>def forever(*args, **kwargs): while True: pass\<close>\<close>
  "forever args kwargs w = Hangs"


section \<open>Vocabulary of the invariant proof\<close>

fun is_store :: "event \<Rightarrow> bool" where
  "is_store (EvStore t v) = True"
| "is_store e = False"

definition trace_ok :: "nat \<Rightarrow> event list \<Rightarrow> pyval \<Rightarrow> bool" where
  "trace_ok t evs rv =
     (list_all (\<lambda>e. unit_of e = t) evs \<and> well_stored None evs \<and>
      (case evs of [] \<Rightarrow> True | e # es \<Rightarrow> \<not> is_store e) \<and>
      (stores t evs = [] \<and> rv = PNone \<or> stores t evs = [rv]))"

definition slots_inv :: "'w state \<Rightarrow> bool" where
  "slots_inv s =
     (list_all (\<lambda>e. unit_of e < length (threads s)) (log s) \<and> well_stored None (log s) \<and>
      (\<forall>t < length (threads s). slot_ok s t))"

definition extends :: "nat \<Rightarrow> 'w state \<Rightarrow> 'w state \<Rightarrow> bool" where
  "extends t s s' =
     (length (threads s') = length (threads s) \<and>
      (\<forall>u. u \<noteq> t \<longrightarrow> threads s' ! u = threads s ! u) \<and>
      thr_status (obj s' t) = thr_status (obj s t) \<and>
      (\<exists>evs. log s' = log s @ evs \<and> trace_ok t evs (return_value (obj s' t))))"


section \<open>Traces and result slots\<close>

lemma stores_append: "stores t (xs @ ys) = stores t xs @ stores t ys"
  by (induction t xs rule: stores.induct) simp_all

lemma stores_other: "list_all (\<lambda>e. unit_of e = t) evs \<Longrightarrow> u \<noteq> t \<Longrightarrow> stores u evs = []"
  by (induction u evs rule: stores.induct) auto

lemma stores_out_of_range: "list_all (\<lambda>e. unit_of e < n) evs \<Longrightarrow> n \<le> u \<Longrightarrow> stores u evs = []"
  by (induction u evs rule: stores.induct) auto

lemma well_stored_head: "(case ys of [] \<Rightarrow> True | e # es \<Rightarrow> \<not> is_store e) \<Longrightarrow> well_stored c ys = well_stored None ys"
  by (cases ys) (auto elim: is_store.elims)

lemma well_stored_append:
  "(case ys of [] \<Rightarrow> True | e # es \<Rightarrow> \<not> is_store e) \<Longrightarrow> well_stored c xs \<Longrightarrow> well_stored None ys \<Longrightarrow> well_stored c (xs @ ys)"
proof (induction c xs rule: well_stored.induct)
  case (1 c)
  then show ?case using well_stored_head [of ys c] by simp
qed simp_all


section \<open>What a run body does to the runtime\<close>

lemmas body_defs = then_do_def invoke_def emit_def upd_def spend_def obj_def

lemma Thread_run_frame:
  "t < length (threads s) \<Longrightarrow> return_value (obj s t) = PNone \<Longrightarrow>
   (case Thread_run t s of Ret x s' \<Rightarrow> extends t s s' | Exc e s' \<Rightarrow> extends t s s' | Hang \<Rightarrow> True)"
  by (auto simp: Thread_run_def extends_def trace_ok_def body_defs split: option.splits behaviour.splits)

lemma capture_frame:
  "t < length (threads s) \<Longrightarrow> return_value (obj s t) = PNone \<Longrightarrow>
   (case capture t s of Ret x s' \<Rightarrow> extends t s s' | Exc e s' \<Rightarrow> extends t s s' | Hang \<Rightarrow> True)"
  by (auto simp: capture_def extends_def trace_ok_def body_defs split: option.splits behaviour.splits)

lemma Timer_run_frame:
  "t < length (threads s) \<Longrightarrow> return_value (obj s t) = PNone \<Longrightarrow>
   (case Timer_run t s of Ret x s' \<Rightarrow> extends t s s' \<and> stores t (new_events s s') = [] | Exc e s' \<Rightarrow> extends t s s' | Hang \<Rightarrow> True)"
  by (auto simp: Timer_run_def Event_wait_def extends_def trace_ok_def new_events_def body_defs split: option.splits behaviour.splits)

lemma Delayed_run_frame:
  "t < length (threads s) \<Longrightarrow> return_value (obj s t) = PNone \<Longrightarrow>
   (case DelayedFunctionWithReturnValue_run t s of Ret x s' \<Rightarrow> extends t s s' | Exc e s' \<Rightarrow> extends t s s' | Hang \<Rightarrow> True)"
  by (auto simp: DelayedFunctionWithReturnValue_run_def capture_def Timer_run_def Event_wait_def extends_def trace_ok_def body_defs split: option.splits behaviour.splits)

lemma run_frame:
  "t < length (threads s) \<Longrightarrow> return_value (obj s t) = PNone \<Longrightarrow>
   (case run t s of Ret x s' \<Rightarrow> extends t s s' | Exc e s' \<Rightarrow> extends t s s' | Hang \<Rightarrow> True)"
  using Thread_run_frame [of t s] capture_frame [of t s] Timer_run_frame [of t s] Delayed_run_frame [of t s]
  by (auto simp: run_def FunctionThreadWithReturnValue_run_def split: cls.splits result.splits)


section \<open>Properties of the decorators\<close>

lemmas rt_defs = alloc_def then_do_def Thread_start_def Thread_join_def set_daemon_def
  bootstrap_def run_def Thread_run_def FunctionThreadWithReturnValue_run_def
  DelayedFunctionWithReturnValue_run_def capture_def
  Timer_run_def Event_wait_def invoke_def emit_def upd_def spend_def obj_def lambda_None_def
  Thread_init_def Timer_init_def FunctionThreadWithReturnValue_init_def
  DelayedFunctionWithReturnValue_init_def Timer_new_def Thread_new_def
  fresh_def new_events_def Let_def nth_append

lemmas op_defs = thread_def thread_join_def thread_daemon_def thread_with_return_value_def
  delay_def delay_join_def delay_daemon_def delay_with_return_value_def

lemmas ex_defs = initial_def square_def bump_def nothing_def faulty_def forever_def


text \<open>
  Claim C1 says that \<^verbatim>\<open>thread_with_return_value(f)(*a)\<close> blocks until the background unit
  has finished and hands back the value of \<^verbatim>\<open>f(*a)\<close>.  The wrapper does block, but its
  \<^verbatim>\<open>call\<close> ends after \<^verbatim>\<open>thread.join()\<close> without a \<^verbatim>\<open>return\<close>: for \<^verbatim>\<open>square\<close> and the argument
  \<^verbatim>\<open>7\<close> the target returns \<^verbatim>\<open>49\<close> and the wrapper returns \<^verbatim>\<open>None\<close>.
\<close>

theorem thread_with_return_value_square:
  "square [PInt 7] [] w = Returns (PInt 49) w 0 \<and>
   returned (thread_with_return_value square [PInt 7] [] (initial w choice)) = Some PNone \<and>
   returned (thread_with_return_value square [PInt 7] [] (initial w choice)) \<noteq> Some (PInt 49)"
  by (simp add: returned_def op_defs ex_defs rt_defs)


text \<open>
  Claim C2: whatever the target does when it comes back, \<^verbatim>\<open>thread_with_return_value(f)(*a)\<close>
  returns \<^verbatim>\<open>None\<close>; a value the target returned sits in the unit's \<^verbatim>\<open>return_value\<close> field
  and is not handed to the caller.
\<close>

theorem thread_with_return_value_returns_None:
  "(f a kw (world s) \<noteq> Hangs \<longrightarrow> returned (thread_with_return_value f a kw s) = Some PNone) \<and>
   (\<forall>v w d. f a kw (world s) = Returns v w d \<longrightarrow>
      (\<exists>s'. thread_with_return_value f a kw s = Ret PNone s' \<and>
            return_value (obj s' (fresh s)) = v))"
  by (cases "f a kw (world s)") (simp_all add: thread_with_return_value_def returned_def rt_defs)

theorem thread_with_return_value_returns_None_witness:
  "bump [] [] (world (initial 41 (\<lambda>_. False))) \<noteq> Hangs \<and>
   returned (thread_with_return_value bump [] [] (initial 41 (\<lambda>_. False))) = Some PNone \<and>
   (\<exists>s'. thread_with_return_value bump [] [] (initial 41 (\<lambda>_. False)) = Ret PNone s' \<and>
         return_value (obj s' 0) = PInt 42)"
  using thread_with_return_value_returns_None [of bump "[]" "[]" "initial 41 (\<lambda>_. False)"]
  by (simp add: bump_def initial_def fresh_def)


text \<open>
  Claim C3 says that for every delay \<open>d \<ge> 0\<close> and every target that returns \<open>v\<close>,
  \<^verbatim>\<open>delay_with_return_value(d)(f)(*a)\<close> returns \<open>v\<close> after at least \<open>d\<close> seconds.  The timer
  hands the delay to a lock, which refuses a timeout above \<^verbatim>\<open>threading.TIMEOUT_MAX\<close>: for a
  delay of \<^verbatim>\<open>10**10\<close> seconds the wait raises on the background unit, \<^verbatim>\<open>square\<close> is never
  called, and the wrapper returns \<^verbatim>\<open>None\<close> with no time passed.
\<close>

theorem delay_with_return_value_beyond_TIMEOUT_MAX:
  "number (PInt 10000000000) = Some 10000000000 \<and> (0 :: rat) \<le> 10000000000 \<and>
   square [PInt 7] [] () = Returns (PInt 49) () 0 \<and>
   observe (delay_with_return_value (PInt 10000000000) square [PInt 7] [] (initial () on_demand)) =
     Some (PNone, (), 0,
       [EvStart 0, EvJoinCalled 0, EvUnhandled 0 OverflowError, EvJoinReturned 0])"
  by (simp add: observe_def on_demand_def TIMEOUT_MAX_def number_def square_def initial_def
      delay_with_return_value_def rt_defs)

text \<open>
  Claim C3, amended: for a delay \<open>d\<close> with \<open>0 \<le> d \<le> TIMEOUT_MAX\<close> and a target that returns
  \<open>v\<close>, \<^verbatim>\<open>delay_with_return_value(d)(f)(*a)\<close> returns \<open>v\<close>, and at least \<open>d\<close> seconds have
  passed on the caller's clock when it does.
\<close>

theorem delay_with_return_value_returns:
  "number d = Some q \<Longrightarrow> 0 \<le> q \<Longrightarrow> q \<le> TIMEOUT_MAX \<Longrightarrow>
   f a kw (world s) = Returns v w dur \<Longrightarrow>
   \<exists>s'. delay_with_return_value d f a kw s = Ret v s' \<and> now s + q \<le> now s'"
  by (cases "d = PNone") (simp_all add: delay_with_return_value_def number_def rt_defs)

theorem delay_with_return_value_returns_witness:
  "number (PFloat (1 / 5)) = Some (1 / 5) \<and> (0 :: rat) \<le> 1 / 5 \<and> 1 / 5 \<le> TIMEOUT_MAX \<and>
   square [PInt 7] [] (world (initial () (\<lambda>_. False))) = Returns (PInt 49) () 0 \<and>
   (\<exists>s'. delay_with_return_value (PFloat (1 / 5)) square [PInt 7] [] (initial () (\<lambda>_. False)) =
           Ret (PInt 49) s' \<and> 1 / 5 \<le> now s')"
  using delay_with_return_value_returns
    [of "PFloat (1 / 5)" "1 / 5" square "[PInt 7]" "[]" "initial () (\<lambda>_. False)" "PInt 49" "()" 0]
  by (simp add: number_def square_def initial_def TIMEOUT_MAX_def)


text \<open>
  Claim C4: when the target raises, neither capturing wrapper raises; the result slot of
  the unit is not written (it still holds \<^verbatim>\<open>None\<close>), and the wrapper returns \<^verbatim>\<open>None\<close>.  For
  the delayed wrapper the delay is anything but \<^verbatim>\<open>None\<close>, with which the timer never fires.
\<close>

theorem capturing_wrappers_swallow_exceptions:
  "f a kw (world s) = Raises e w dur \<Longrightarrow>
   (\<exists>s'. thread_with_return_value f a kw s = Ret PNone s' \<and>
         return_value (obj s' (fresh s)) = PNone \<and>
         stores (fresh s) (new_events s s') = [] \<and>
         EvUnhandled (fresh s) e \<in> set (new_events s s')) \<and>
   (d \<noteq> PNone \<longrightarrow>
     (\<exists>s'. delay_with_return_value d f a kw s = Ret PNone s' \<and>
           return_value (obj s' (fresh s)) = PNone \<and>
           stores (fresh s) (new_events s s') = []))"
  by (cases "number d"; cases "0 < the (number d) \<and> TIMEOUT_MAX < the (number d)";
      cases "sched s (length (threads s))")
     (simp_all add: thread_with_return_value_def delay_with_return_value_def rt_defs)

theorem capturing_wrappers_swallow_exceptions_witness:
  "faulty [] [] (world (initial () (\<lambda>_. False))) = Raises (OtherError ''ValueError'') () 0 \<and>
   (\<exists>s'. thread_with_return_value faulty [] [] (initial () (\<lambda>_. False)) = Ret PNone s' \<and>
         return_value (obj s' 0) = PNone \<and>
         EvUnhandled 0 (OtherError ''ValueError'') \<in> set (log s')) \<and>
   PInt 2 \<noteq> PNone \<and>
   (\<exists>s'. delay_with_return_value (PInt 2) faulty [] [] (initial () (\<lambda>_. False)) = Ret PNone s' \<and>
         return_value (obj s' 0) = PNone)"
  using capturing_wrappers_swallow_exceptions
    [of faulty "[]" "[]" "initial () (\<lambda>_. False)" "OtherError ''ValueError''" "()" 0 "PInt 2"]
  by (auto simp add: faulty_def initial_def fresh_def new_events_def)


text \<open>
  Claim C5: the run body of \<^verbatim>\<open>_DelayedFunctionWithReturnValue\<close> first does what
  \<^verbatim>\<open>Timer.run\<close> does (wait for the interval, call the timer's own function, which is
  \<^verbatim>\<open>lambda: None\<close>, set the flag) and only then calls the target and stores its result.  When
  \<^verbatim>\<open>Timer.run\<close> does not come back normally (the interval is above \<^verbatim>\<open>TIMEOUT_MAX\<close>, is not a
  number, or is \<^verbatim>\<open>None\<close>), the target is not reached and nothing is stored.
\<close>

theorem delayed_run_appends_capture:
  "DelayedFunctionWithReturnValue_init d f a kw s = (t, s1) \<Longrightarrow>
   (\<forall>q. number d = Some q \<and> q \<le> TIMEOUT_MAX \<longrightarrow>
     (\<forall>v w dur. f a kw (world s) = Returns v w dur \<longrightarrow>
       (\<exists>s2. DelayedFunctionWithReturnValue_run t s1 = Ret () s2 \<and>
         new_events s1 s2 =
           [EvWait t d, EvCallFunction t, EvSetFinished t, EvCallCaptured t, EvStore t v] \<and>
         return_value (obj s2 t) = v \<and> world s2 = w \<and> tmr_finished (obj s2 t) \<and>
         busy (obj s2 t) = max 0 q + max 0 dur)) \<and>
     (\<forall>e w dur. f a kw (world s) = Raises e w dur \<longrightarrow>
       (\<exists>s2. DelayedFunctionWithReturnValue_run t s1 = Exc e s2 \<and>
         new_events s1 s2 = [EvWait t d, EvCallFunction t, EvSetFinished t, EvCallCaptured t] \<and>
         return_value (obj s2 t) = PNone \<and> world s2 = w \<and> tmr_finished (obj s2 t))) \<and>
     (f a kw (world s) = Hangs \<longrightarrow> DelayedFunctionWithReturnValue_run t s1 = Hang)) \<and>
   (\<forall>q. number d = Some q \<and> TIMEOUT_MAX < q \<longrightarrow>
     DelayedFunctionWithReturnValue_run t s1 = Exc OverflowError s1) \<and>
   (malformed d \<longrightarrow> DelayedFunctionWithReturnValue_run t s1 = Exc TypeError s1) \<and>
   (d = PNone \<longrightarrow> DelayedFunctionWithReturnValue_run t s1 = Hang) \<and>
   (\<forall>u s0. Timer_run u s0 = Hang \<longrightarrow> DelayedFunctionWithReturnValue_run u s0 = Hang) \<and>
   (\<forall>u s0 e s'. Timer_run u s0 = Exc e s' \<longrightarrow> DelayedFunctionWithReturnValue_run u s0 = Exc e s')"
proof -
  assume i: "DelayedFunctionWithReturnValue_init d f a kw s = (t, s1)"
  have pos: "0 < TIMEOUT_MAX" by (simp add: TIMEOUT_MAX_def)
  have 1: "\<exists>s2. DelayedFunctionWithReturnValue_run t s1 = Ret () s2 \<and>
         new_events s1 s2 =
           [EvWait t d, EvCallFunction t, EvSetFinished t, EvCallCaptured t, EvStore t v] \<and>
         return_value (obj s2 t) = v \<and> world s2 = w \<and> tmr_finished (obj s2 t) \<and>
         busy (obj s2 t) = max 0 q + max 0 dur"
    if "number d = Some q" "q \<le> TIMEOUT_MAX" "f a kw (world s) = Returns v w dur" for q v w dur
    using i that by (cases "d = PNone") (auto simp add: number_def rt_defs)
  have 2: "\<exists>s2. DelayedFunctionWithReturnValue_run t s1 = Exc e s2 \<and>
         new_events s1 s2 = [EvWait t d, EvCallFunction t, EvSetFinished t, EvCallCaptured t] \<and>
         return_value (obj s2 t) = PNone \<and> world s2 = w \<and> tmr_finished (obj s2 t)"
    if "number d = Some q" "q \<le> TIMEOUT_MAX" "f a kw (world s) = Raises e w dur" for q e w dur
    using i that by (cases "d = PNone") (auto simp add: number_def rt_defs)
  have 3: "DelayedFunctionWithReturnValue_run t s1 = Hang"
    if "number d = Some q" "q \<le> TIMEOUT_MAX" "f a kw (world s) = Hangs" for q
    using i that by (cases "d = PNone") (auto simp add: number_def rt_defs)
  have 4: "DelayedFunctionWithReturnValue_run t s1 = Exc OverflowError s1"
    if "number d = Some q" "TIMEOUT_MAX < q" for q
    using i that pos by (cases "d = PNone") (auto simp add: number_def rt_defs)
  have 5: "DelayedFunctionWithReturnValue_run t s1 = Exc TypeError s1" if "malformed d"
    using i that by (auto simp add: malformed_def rt_defs)
  have 6: "DelayedFunctionWithReturnValue_run t s1 = Hang" if "d = PNone"
    using i that by (auto simp add: rt_defs)
  have 7: "DelayedFunctionWithReturnValue_run u s0 = Hang" if "Timer_run u s0 = Hang" for u s0
    using that by (simp add: DelayedFunctionWithReturnValue_run_def then_do_def)
  have 8: "DelayedFunctionWithReturnValue_run u s0 = Exc e s'" if "Timer_run u s0 = Exc e s'"
    for u s0 e s'
    using that by (simp add: DelayedFunctionWithReturnValue_run_def then_do_def)
  show ?thesis using 1 2 3 4 5 6 7 8 by blast
qed

theorem delayed_run_appends_capture_witness:
  "DelayedFunctionWithReturnValue_init (PInt 3) bump [] [] (initial 0 (\<lambda>_. False)) =
     (0, snd (DelayedFunctionWithReturnValue_init (PInt 3) bump [] [] (initial 0 (\<lambda>_. False)))) \<and>
   number (PInt 3) = Some 3 \<and> 3 \<le> TIMEOUT_MAX \<and>
   (\<exists>s2. DelayedFunctionWithReturnValue_run 0
           (snd (DelayedFunctionWithReturnValue_init (PInt 3) bump [] [] (initial 0 (\<lambda>_. False)))) =
           Ret () s2 \<and>
         log s2 = [EvWait 0 (PInt 3), EvCallFunction 0, EvSetFinished 0, EvCallCaptured 0,
                   EvStore 0 (PInt 1)] \<and>
         return_value (obj s2 0) = PInt 1 \<and> world s2 = 1 \<and> busy (obj s2 0) = 4)"
proof -
  let ?s = "initial (0::int) (\<lambda>_. False)"
  let ?s1 = "snd (DelayedFunctionWithReturnValue_init (PInt 3) bump [] [] ?s)"
  have i: "DelayedFunctionWithReturnValue_init (PInt 3) bump [] [] ?s = (0, ?s1)"
    by (simp add: DelayedFunctionWithReturnValue_init_def alloc_def initial_def)
  have n: "number (PInt 3) = Some 3" by (simp add: number_def)
  have m: "3 \<le> TIMEOUT_MAX" by (simp add: TIMEOUT_MAX_def)
  have l: "log ?s1 = []"
    by (simp add: DelayedFunctionWithReturnValue_init_def alloc_def initial_def)
  have b: "bump [] [] (world ?s) = Returns (PInt 1) 1 1"
    by (simp add: bump_def initial_def)
  from delayed_run_appends_capture [OF i] n m b
  obtain s2 where "DelayedFunctionWithReturnValue_run 0 ?s1 = Ret () s2"
    and "new_events ?s1 s2 =
      [EvWait 0 (PInt 3), EvCallFunction 0, EvSetFinished 0, EvCallCaptured 0, EvStore 0 (PInt 1)]"
    and "return_value (obj s2 0) = PInt 1" and "world s2 = 1"
    and "busy (obj s2 0) = max 0 3 + max 0 1"
    by blast
  then show ?thesis using i n m l by (simp add: new_events_def)
qed



section \<open>The result slot across all operations\<close>

text \<open>
  The invariant \<open>slots_inv\<close> ties every result slot to the writes recorded in the trace.  It
  holds initially and is preserved by each step of the runtime, hence by every decorator.
\<close>

lemma stores_not_store: "\<not> is_store e \<Longrightarrow> stores t [e] = []"
  by (cases e) simp_all

lemma well_stored_single: "\<not> is_store e \<Longrightarrow> well_stored None [e]"
  by (cases e) simp_all

lemma trace_ok_snoc:
  assumes tr: "trace_ok t evs rv" and u: "unit_of e = t" and ns: "\<not> is_store e"
  shows "trace_ok t (evs @ [e]) rv"
proof -
  have "well_stored None (evs @ [e])"
    using tr ns by (intro well_stored_append) (simp_all add: trace_ok_def well_stored_single)
  moreover have "stores t (evs @ [e]) = stores t evs"
    by (simp add: stores_append stores_not_store ns)
  moreover have "case evs @ [e] of [] \<Rightarrow> True | x # xs \<Rightarrow> \<not> is_store x"
    using tr ns by (cases evs) (simp_all add: trace_ok_def)
  ultimately show ?thesis using tr u by (simp add: trace_ok_def)
qed

lemma slot_ok_unwritten:
  "slot_ok s t \<Longrightarrow> thr_status (obj s t) \<noteq> Finished \<Longrightarrow>
   stores t (log s) = [] \<and> return_value (obj s t) = PNone"
  by (auto simp: slot_ok_def split: list.splits)

lemma slot_ok_cong:
  "stores t (log s') = stores t (log s) \<Longrightarrow> obj s' t = obj s t \<Longrightarrow> slot_ok s' t = slot_ok s t"
  by (simp add: slot_ok_def cong: list.case_cong)

lemma inv_extend:
  assumes inv: "slots_inv s" and t: "t < length (threads s)"
    and st: "thr_status (obj s t) \<noteq> Finished"
    and len: "length (threads s') = length (threads s)"
    and others: "\<forall>u. u \<noteq> t \<longrightarrow> threads s' ! u = threads s ! u"
    and lg: "log s' = log s @ evs"
    and tr: "trace_ok t evs (return_value (obj s' t))"
    and fin: "stores t evs \<noteq> [] \<longrightarrow> thr_status (obj s' t) = Finished"
  shows "slots_inv s'"
proof -
  have units: "list_all (\<lambda>e. unit_of e = t) evs" and ws: "well_stored None evs"
    and hd: "(case evs of [] \<Rightarrow> True | e # es \<Rightarrow> \<not> is_store e)"
    and sto: "stores t evs = [] \<and> return_value (obj s' t) = PNone \<or> stores t evs = [return_value (obj s' t)]"
    using tr by (simp_all add: trace_ok_def)
  have a: "list_all (\<lambda>e. unit_of e < length (threads s')) (log s')"
    using inv units t by (auto simp: slots_inv_def lg len list_all_iff)
  have b: "well_stored None (log s')"
    using inv ws hd by (simp add: slots_inv_def lg well_stored_append)
  have c: "slot_ok s' u" if u: "u < length (threads s')" for u
  proof (cases "u = t")
    case True
    have "stores t (log s) = []"
      using inv t st slot_ok_unwritten [of s t] by (simp add: slots_inv_def)
    then have "stores t (log s') = stores t evs" by (simp add: lg stores_append)
    then show ?thesis using sto fin True by (auto simp: slot_ok_def)
  next
    case False
    have "stores u evs = []" using units False stores_other by blast
    then have "stores u (log s') = stores u (log s)" by (simp add: lg stores_append)
    moreover have "obj s' u = obj s u" using others False by (simp add: obj_def)
    moreover have "slot_ok s u" using inv u len by (simp add: slots_inv_def)
    ultimately show ?thesis using slot_ok_cong [of u s' s] by simp
  qed
  show ?thesis using a b c by (simp add: slots_inv_def)
qed

lemma inv_emit:
  assumes inv: "slots_inv s" and u: "unit_of e < length (threads s)" and ns: "\<not> is_store e"
  shows "slots_inv (emit e s)"
proof -
  have "slot_ok (emit e s) t = slot_ok s t" for t
    by (rule slot_ok_cong) (simp_all add: emit_def obj_def stores_append stores_not_store ns)
  then show ?thesis
    using inv u ns
    by (simp add: slots_inv_def emit_def well_stored_append well_stored_single)
qed

lemma inv_cong:
  assumes "threads s' = threads s" and "log s' = log s"
  shows "slots_inv s' = slots_inv s"
proof -
  have "slot_ok s' t = slot_ok s t" for t
    by (rule slot_ok_cong) (simp_all add: assms obj_def)
  then show ?thesis by (simp add: slots_inv_def assms)
qed

lemma extendsD:
  assumes "extends t s s1"
  obtains evs where "length (threads s1) = length (threads s)"
    and "\<forall>u. u \<noteq> t \<longrightarrow> threads s1 ! u = threads s ! u"
    and "thr_status (obj s1 t) = thr_status (obj s t)"
    and "log s1 = log s @ evs" and "trace_ok t evs (return_value (obj s1 t))"
  using assms unfolding extends_def by blast

lemma upd_threads: "threads (upd t f s) = (threads s)[t := f (threads s ! t)]"
  by (simp add: upd_def)

lemma upd_log: "log (upd t f s) = log s"
  by (simp add: upd_def)

lemma obj_upd_same: "t < length (threads s) \<Longrightarrow> obj (upd t f s) t = f (obj s t)"
  by (simp add: upd_def obj_def)

lemma inv_bootstrap:
  assumes inv: "slots_inv s" and t: "t < length (threads s)" and st: "thr_status (obj s t) = Started"
  shows "slots_inv (bootstrap t s)"
proof -
  have rv: "return_value (obj s t) = PNone"
    using inv t st slot_ok_unwritten [of s t] by (simp add: slots_inv_def)
  have nf: "thr_status (obj s t) \<noteq> Finished" using st by simp
  note fr = run_frame [OF t rv]
  show ?thesis
  proof (cases "run t s")
    case (Ret x s1)
    then have "extends t s s1" using fr by simp
    then obtain evs where len: "length (threads s1) = length (threads s)"
      and oth: "\<forall>u. u \<noteq> t \<longrightarrow> threads s1 ! u = threads s ! u"
      and lg: "log s1 = log s @ evs" and tr: "trace_ok t evs (return_value (obj s1 t))"
      by (rule extendsD)
    let ?s' = "upd t (\<lambda>ob. ob\<lparr>thr_status := Finished\<rparr>) s1"
    have t1: "t < length (threads s1)" using t len by simp
    have "slots_inv ?s'"
    proof (rule inv_extend [OF inv t nf, where evs = evs])
      show "length (threads ?s') = length (threads s)" by (simp add: upd_threads len)
      show "\<forall>u. u \<noteq> t \<longrightarrow> threads ?s' ! u = threads s ! u" using oth by (simp add: upd_threads)
      show "log ?s' = log s @ evs" by (simp add: upd_log lg)
      show "trace_ok t evs (return_value (obj ?s' t))" using tr by (simp add: obj_upd_same [OF t1])
      show "stores t evs \<noteq> [] \<longrightarrow> thr_status (obj ?s' t) = Finished" by (simp add: obj_upd_same [OF t1])
    qed
    then show ?thesis using Ret by (simp add: bootstrap_def)
  next
    case (Exc e s1)
    then have "extends t s s1" using fr by simp
    then obtain evs where len: "length (threads s1) = length (threads s)"
      and oth: "\<forall>u. u \<noteq> t \<longrightarrow> threads s1 ! u = threads s ! u"
      and lg: "log s1 = log s @ evs" and tr: "trace_ok t evs (return_value (obj s1 t))"
      by (rule extendsD)
    let ?s2 = "emit (EvUnhandled t e) s1"
    let ?s' = "upd t (\<lambda>ob. ob\<lparr>thr_status := Finished\<rparr>) ?s2"
    have t1: "t < length (threads ?s2)" using t len by (simp add: emit_def)
    have tr': "trace_ok t (evs @ [EvUnhandled t e]) (return_value (obj s1 t))"
      using tr by (simp add: trace_ok_snoc)
    have "slots_inv ?s'"
    proof (rule inv_extend [OF inv t nf, where evs = "evs @ [EvUnhandled t e]"])
      show "length (threads ?s') = length (threads s)" by (simp add: upd_threads len emit_def)
      show "\<forall>u. u \<noteq> t \<longrightarrow> threads ?s' ! u = threads s ! u" using oth by (simp add: upd_threads emit_def)
      show "log ?s' = log s @ evs @ [EvUnhandled t e]" by (simp add: upd_log lg emit_def)
      show "trace_ok t (evs @ [EvUnhandled t e]) (return_value (obj ?s' t))"
        using tr' by (simp add: obj_upd_same [OF t1]) (simp add: emit_def obj_def)
      show "stores t (evs @ [EvUnhandled t e]) \<noteq> [] \<longrightarrow> thr_status (obj ?s' t) = Finished"
        by (simp add: obj_upd_same [OF t1])
    qed
    then show ?thesis using Exc by (simp add: bootstrap_def)
  next
    case Hang
    let ?s' = "upd t (\<lambda>ob. ob\<lparr>thr_status := Running\<rparr>) s"
    have "slots_inv ?s'"
    proof (rule inv_extend [OF inv t nf, where evs = "[]"])
      show "length (threads ?s') = length (threads s)" by (simp add: upd_threads)
      show "\<forall>u. u \<noteq> t \<longrightarrow> threads ?s' ! u = threads s ! u" by (simp add: upd_threads)
      show "log ?s' = log s @ []" by (simp add: upd_log)
      show "trace_ok t [] (return_value (obj ?s' t))"
        using rv by (simp add: obj_upd_same [OF t] trace_ok_def)
      show "stores t [] \<noteq> [] \<longrightarrow> thr_status (obj ?s' t) = Finished" by simp
    qed
    then show ?thesis using Hang by (simp add: bootstrap_def)
  qed
qed


lemma bootstrap_length:
  assumes inv: "slots_inv s" and t: "t < length (threads s)" and st: "thr_status (obj s t) = Started"
  shows "length (threads (bootstrap t s)) = length (threads s)"
proof -
  have rv: "return_value (obj s t) = PNone"
    using inv t st slot_ok_unwritten [of s t] by (simp add: slots_inv_def)
  note fr = run_frame [OF t rv]
  show ?thesis
  proof (cases "run t s")
    case (Ret x s1)
    then have "extends t s s1" using fr by simp
    then have "length (threads s1) = length (threads s)" by (simp add: extends_def)
    then show ?thesis using Ret by (simp add: bootstrap_def upd_threads)
  next
    case (Exc e s1)
    then have "extends t s s1" using fr by simp
    then have "length (threads s1) = length (threads s)" by (simp add: extends_def)
    then show ?thesis using Exc by (simp add: bootstrap_def upd_threads emit_def)
  next
    case Hang
    then show ?thesis by (simp add: bootstrap_def upd_threads)
  qed
qed

lemma inv_alloc:
  assumes inv: "slots_inv s" and rv: "return_value ob = PNone"
  shows "slots_inv (snd (alloc ob s))"
proof -
  let ?s' = "s\<lparr>threads := threads s @ [ob]\<rparr>"
  have a: "list_all (\<lambda>e. unit_of e < length (threads ?s')) (log ?s')"
    using inv by (auto simp: slots_inv_def list_all_iff)
  have b: "well_stored None (log ?s')" using inv by (simp add: slots_inv_def)
  have c: "slot_ok ?s' u" if u: "u < length (threads ?s')" for u
  proof (cases "u < length (threads s)")
    case True
    have "slot_ok ?s' u = slot_ok s u"
      by (rule slot_ok_cong) (simp_all add: obj_def nth_append True)
    then show ?thesis using inv True by (simp add: slots_inv_def)
  next
    case False
    then have eq: "u = length (threads s)" using u by simp
    have "stores u (log s) = []"
      using inv eq stores_out_of_range [of "length (threads s)" "log s" u]
      by (simp add: slots_inv_def)
    then show ?thesis using rv eq by (simp add: slot_ok_def obj_def)
  qed
  show ?thesis using a b c by (simp add: slots_inv_def alloc_def)
qed

lemma inv_status:
  assumes inv: "slots_inv s" and t: "t < length (threads s)"
    and st: "thr_status (obj s t) \<noteq> Finished"
    and rv: "\<And>ob. return_value (f ob) = return_value ob"
  shows "slots_inv (upd t f s)"
proof (rule inv_extend [OF inv t st, where evs = "[]"])
  show "length (threads (upd t f s)) = length (threads s)" by (simp add: upd_threads)
  show "\<forall>u. u \<noteq> t \<longrightarrow> threads (upd t f s) ! u = threads s ! u" by (simp add: upd_threads)
  show "log (upd t f s) = log s @ []" by (simp add: upd_log)
  have "return_value (obj s t) = PNone"
    using inv t st slot_ok_unwritten [of s t] by (simp add: slots_inv_def)
  then show "trace_ok t [] (return_value (obj (upd t f s) t))"
    by (simp add: obj_upd_same [OF t] trace_ok_def rv)
  show "stores t [] \<noteq> [] \<longrightarrow> thr_status (obj (upd t f s) t) = Finished" by simp
qed

lemma inv_start:
  assumes inv: "slots_inv s" and fin: "final (Thread_start t s) = Some s'"
  shows "slots_inv s'"
proof (cases "t < length (threads s) \<and> thr_status (obj s t) = Created")
  case False
  then have "s' = s" using fin by (auto simp: Thread_start_def final_def split: if_splits)
  then show ?thesis using inv by simp
next
  case True
  then have t: "t < length (threads s)" and st: "thr_status (obj s t) = Created" by simp_all
  let ?s0 = "upd t (\<lambda>ob. ob\<lparr>thr_status := Started, started_at := now s\<rparr>) s"
  let ?s1 = "emit (EvStart t) ?s0"
  have "slots_inv ?s0" using inv t st by (intro inv_status) simp_all
  then have i1: "slots_inv ?s1" using t by (intro inv_emit) (simp_all add: upd_threads)
  have t1: "t < length (threads ?s1)" using t by (simp add: emit_def upd_threads)
  have st1: "thr_status (obj ?s1 t) = Started" using t by (simp add: emit_def upd_def obj_def)
  have "s' = (if sched s t then bootstrap t ?s1 else ?s1)"
    using fin True by (simp add: Thread_start_def final_def Let_def)
  then show ?thesis using i1 inv_bootstrap [OF i1 t1 st1] by simp
qed

lemma inv_join:
  assumes inv: "slots_inv s" and fin: "final (Thread_join t s) = Some s'"
  shows "slots_inv s'"
proof (cases "t < length (threads s)")
  case False
  then have "s' = s" using fin by (simp add: Thread_join_def final_def)
  then show ?thesis using inv by simp
next
  case t: True
  let ?s0 = "emit (EvJoinCalled t) s"
  let ?s1 = "if thr_status (obj ?s0 t) = Started then bootstrap t ?s0 else ?s0"
  have i0: "slots_inv ?s0" using inv t by (intro inv_emit) simp_all
  have t0: "t < length (threads ?s0)" using t by (simp add: emit_def)
  have i1: "slots_inv ?s1" using i0 inv_bootstrap [OF i0 t0] by simp
  show ?thesis
  proof (cases "thr_status (obj s t) = Created")
    case True
    then have "s' = ?s0" using fin t by (simp add: Thread_join_def final_def)
    then show ?thesis using i0 by simp
  next
    case False
    let ?s2 = "?s1\<lparr>now := max (now ?s1) (started_at (obj ?s1 t) + busy (obj ?s1 t))\<rparr>"
    have len: "length (threads ?s1) = length (threads s)"
      using bootstrap_length [OF i0 t0] by (simp add: emit_def)
    have "slots_inv ?s2" using i1 inv_cong [of ?s2 ?s1] by simp
    then have "slots_inv (emit (EvJoinReturned t) ?s2)"
      using t len by (intro inv_emit) simp_all
    moreover have "s' = emit (EvJoinReturned t) ?s2"
      using fin t False by (simp add: Thread_join_def final_def Let_def split: if_splits)
    ultimately show ?thesis by simp
  qed
qed


lemma inv_set_daemon:
  assumes inv: "slots_inv s" and fin: "final (set_daemon t b s) = Some s'"
  shows "slots_inv s'"
proof (cases "t < length (threads s) \<and> thr_status (obj s t) = Created")
  case False
  then have "s' = s" using fin by (auto simp: set_daemon_def final_def split: if_splits)
  then show ?thesis using inv by simp
next
  case True
  then have "s' = upd t (\<lambda>ob. ob\<lparr>thr_daemon := b\<rparr>) s"
    using fin by (simp add: set_daemon_def final_def)
  then show ?thesis using inv True by (simp add: inv_status)
qed

lemma final_then_do:
  assumes "final (then_do r k) = Some s'"
    and "\<And>s1. final r = Some s1 \<Longrightarrow> P s1"
    and "\<And>a s1. r = Ret a s1 \<Longrightarrow> P s1 \<Longrightarrow> final (k a s1) = Some s' \<Longrightarrow> P s'"
  shows "P s'"
  using assms by (cases r) (simp_all add: then_do_def final_def)

lemma inv_fire:
  assumes inv: "slots_inv s1"
    and fin: "final (then_do (Thread_start t s1) (\<lambda>_ s2. Ret v s2)) = Some s'"
  shows "slots_inv s'"
proof (rule final_then_do [OF fin])
  show "slots_inv s2" if "final (Thread_start t s1) = Some s2" for s2
    using inv that by (rule inv_start)
  show "slots_inv s'" if "slots_inv s2" and "final (Ret v s2) = Some s'" for s2 :: "'a state"
    using that by (simp add: final_def)
qed

lemma inv_joined:
  assumes inv: "slots_inv s1"
    and fin: "final (then_do (Thread_start t s1) (\<lambda>_ s2.
                then_do (Thread_join t s2) (\<lambda>_ s3. Ret (g s3) s3))) = Some s'"
  shows "slots_inv s'"
proof (rule final_then_do [OF fin])
  show "slots_inv s2" if "final (Thread_start t s1) = Some s2" for s2
    using inv that by (rule inv_start)
  show "slots_inv s'"
    if i2: "slots_inv s2" and f2: "final (then_do (Thread_join t s2) (\<lambda>_ s3. Ret (g s3) s3)) = Some s'"
    for s2
  proof (rule final_then_do [OF f2])
    show "slots_inv s3" if "final (Thread_join t s2) = Some s3" for s3
      using i2 that by (rule inv_join)
    show "slots_inv s'" if "slots_inv s3" and "final (Ret (g s3) s3) = Some s'" for s3
      using that by (simp add: final_def)
  qed
qed

lemma inv_daemon:
  assumes inv: "slots_inv s1"
    and fin: "final (then_do (set_daemon t b s1) (\<lambda>_ s2.
                then_do (Thread_start t s2) (\<lambda>_ s3. Ret v s3))) = Some s'"
  shows "slots_inv s'"
proof (rule final_then_do [OF fin])
  show "slots_inv s2" if "final (set_daemon t b s1) = Some s2" for s2
    using inv that by (rule inv_set_daemon)
  show "slots_inv s'"
    if i2: "slots_inv s2" and f2: "final (then_do (Thread_start t s2) (\<lambda>_ s3. Ret v s3)) = Some s'"
    for s2
    using i2 f2 by (rule inv_fire)
qed

lemma Thread_init_inv: "slots_inv s \<Longrightarrow> slots_inv (snd (Thread_init f a kw s))"
  by (simp add: Thread_init_def inv_alloc Thread_new_def)

lemma Timer_init_inv: "slots_inv s \<Longrightarrow> slots_inv (snd (Timer_init d f a kw s))"
  by (simp add: Timer_init_def inv_alloc Timer_new_def Thread_new_def)

lemma FunctionThreadWithReturnValue_init_inv:
  "slots_inv s \<Longrightarrow> slots_inv (snd (FunctionThreadWithReturnValue_init f a kw s))"
  by (simp add: FunctionThreadWithReturnValue_init_def inv_alloc)

lemma DelayedFunctionWithReturnValue_init_inv:
  "slots_inv s \<Longrightarrow> slots_inv (snd (DelayedFunctionWithReturnValue_init d f a kw s))"
  by (simp add: DelayedFunctionWithReturnValue_init_def inv_alloc)

lemma inv_library_op:
  assumes op: "library_op op" and inv: "slots_inv s" and fin: "final (op f a kw s) = Some s'"
  shows "slots_inv s'"
  using op fin
proof (cases rule: library_op.cases)
  case 1
  then show ?thesis
    using fin inv_fire [OF Thread_init_inv [OF inv]] by (simp add: thread_def split_beta)
next
  case 2
  then show ?thesis
    using fin inv_joined [OF Thread_init_inv [OF inv]] by (simp add: thread_join_def split_beta)
next
  case 3
  then show ?thesis
    using fin inv_daemon [OF Thread_init_inv [OF inv]] by (simp add: thread_daemon_def split_beta)
next
  case 4
  then show ?thesis
    using fin inv_joined [OF FunctionThreadWithReturnValue_init_inv [OF inv]]
    by (simp add: thread_with_return_value_def split_beta)
next
  case (5 d)
  then show ?thesis
    using fin inv_fire [OF Timer_init_inv [OF inv]] by (simp add: delay_def split_beta)
next
  case (6 d)
  then show ?thesis
    using fin inv_joined [OF Timer_init_inv [OF inv]] by (simp add: delay_join_def split_beta)
next
  case (7 d)
  then show ?thesis
    using fin inv_daemon [OF Timer_init_inv [OF inv]] by (simp add: delay_daemon_def split_beta)
next
  case (8 d)
  then show ?thesis
    using fin inv_joined [OF DelayedFunctionWithReturnValue_init_inv [OF inv]]
    by (simp add: delay_with_return_value_def split_beta)
qed

lemma reachable_inv: "reachable s \<Longrightarrow> slots_inv s"
proof (induction rule: reachable.induct)
  case (start w choice)
  show ?case by (simp add: slots_inv_def initial_def)
next
  case (call s op f args kwargs s')
  then show ?case using inv_library_op by blast
next
  case (background s t)
  then show ?case by (simp add: inv_bootstrap)
next
  case (reschedule s choice)
  then show ?case using inv_cong [of "s\<lparr>sched := choice\<rparr>" s] by simp
next
  case (other_thread s d)
  then show ?case using inv_cong [of "s\<lparr>caller_daemon := d\<rparr>" s] by simp
qed

text \<open>
  Claim C6: the result slot of a capturing unit is \<^verbatim>\<open>None\<close> at creation; in every state a
  program reaches through the library, while the scheduler runs started units as it likes,
  each slot has been written at most once, holds what was written (so nobody else wrote
  it), and every write comes right after the captured call of the same unit.
\<close>

theorem result_slot_written_at_most_once:
  "return_value (obj (snd (FunctionThreadWithReturnValue_init f a kw s0)) (fresh s0)) = PNone \<and>
   return_value (obj (snd (DelayedFunctionWithReturnValue_init d f a kw s0)) (fresh s0)) = PNone \<and>
   (reachable s \<longrightarrow>
      well_stored None (log s) \<and> (\<forall>t < length (threads s). slot_ok s t))"
proof -
  have "return_value (obj (snd (FunctionThreadWithReturnValue_init f a kw s0)) (fresh s0)) = PNone"
    by (simp add: rt_defs)
  moreover
  have "return_value (obj (snd (DelayedFunctionWithReturnValue_init d f a kw s0)) (fresh s0)) = PNone"
    by (simp add: rt_defs)
  moreover
  have "well_stored None (log s) \<and> (\<forall>t < length (threads s). slot_ok s t)" if "reachable s"
    using reachable_inv [OF that] by (simp add: slots_inv_def)
  ultimately show ?thesis by blast
qed

theorem result_slot_written_at_most_once_witness:
  "\<exists>s. final (delay_with_return_value (PInt 2) square [PInt 7] []
              (initial () (\<lambda>_. False))) = Some s \<and>
       reachable s \<and> length (threads s) = 1 \<and> stores 0 (log s) = [PInt 49] \<and>
       return_value (obj s 0) = PInt 49 \<and> well_stored None (log s) \<and> slot_ok s 0"
proof -
  let ?s0 = "initial () (\<lambda>_. False)"
  let ?r = "delay_with_return_value (PInt 2) square [PInt 7] [] ?s0"
  obtain s where fin: "final ?r = Some s" and len: "length (threads s) = 1"
    and st: "stores 0 (log s) = [PInt 49]" and rv: "return_value (obj s 0) = PInt 49"
    by (simp add: final_def delay_with_return_value_def square_def initial_def number_def
        TIMEOUT_MAX_def rt_defs)
  have re: "reachable s"
    using reachable.call [OF reachable.start library_op.intros(8) fin] .
  have "well_stored None (log s) \<and> slot_ok s 0"
    using result_slot_written_at_most_once [of square "[PInt 7]" "[]" ?s0 "PInt 2" s] re len
    by simp
  then show ?thesis using fin len st rv re by simp
qed


section \<open>Blocking, validation and the empty result\<close>

text \<open>
  Claim C7: \<^verbatim>\<open>thread\<close>, \<^verbatim>\<open>thread_daemon\<close>, \<^verbatim>\<open>delay(d)\<close> and \<^verbatim>\<open>delay_daemon(d)\<close> create the unit
  that calls \<^verbatim>\<open>f(*args, **kwargs)\<close>, start it, join nothing, and come back at once with
  \<^verbatim>\<open>None\<close>, whatever the target does (return, raise or run for ever) and whenever the
  scheduler runs it; what the target does stays on the unit.
\<close>

theorem fire_and_forget_wrappers_never_block:
  "fire_and_forget (thread_for f a kw) (caller_daemon s) s (thread f a kw s) \<and>
   fire_and_forget (thread_for f a kw) True s (thread_daemon f a kw s) \<and>
   fire_and_forget (timer_for d f a kw) (caller_daemon s) s (delay d f a kw s) \<and>
   fire_and_forget (timer_for d f a kw) True s (delay_daemon d f a kw s) \<and>
   then_runs (EvCallTarget (fresh s)) (f a kw (world s)) s (thread f a kw s) \<and>
   then_runs (EvCallTarget (fresh s)) (f a kw (world s)) s (thread_daemon f a kw s) \<and>
   (\<forall>q. number d = Some q \<and> q \<le> TIMEOUT_MAX \<longrightarrow>
      then_runs (EvCallFunction (fresh s)) (f a kw (world s)) s (delay d f a kw s) \<and>
      then_runs (EvCallFunction (fresh s)) (f a kw (world s)) s (delay_daemon d f a kw s))"
proof -
  have 1: "fire_and_forget (thread_for f a kw) (caller_daemon s) s (thread f a kw s)"
    by (cases "f a kw (world s)"; cases "sched s (length (threads s))")
       (simp_all add: fire_and_forget_def thread_for_def thread_def rt_defs)
  have 2: "fire_and_forget (thread_for f a kw) True s (thread_daemon f a kw s)"
    by (cases "f a kw (world s)"; cases "sched s (length (threads s))")
       (simp_all add: fire_and_forget_def thread_for_def thread_daemon_def rt_defs)
  have 3: "fire_and_forget (timer_for d f a kw) (caller_daemon s) s (delay d f a kw s)"
    by (cases "f a kw (world s)"; cases "number d"; cases "sched s (length (threads s))";
        cases "d = PNone")
       (simp_all add: fire_and_forget_def timer_for_def delay_def rt_defs)
  have 4: "fire_and_forget (timer_for d f a kw) True s (delay_daemon d f a kw s)"
    by (cases "f a kw (world s)"; cases "number d"; cases "sched s (length (threads s))";
        cases "d = PNone")
       (simp_all add: fire_and_forget_def timer_for_def delay_daemon_def rt_defs)
  have 5: "then_runs (EvCallTarget (fresh s)) (f a kw (world s)) s (thread f a kw s)"
    by (cases "f a kw (world s)"; cases "sched s (length (threads s))")
       (simp_all add: then_runs_def let_run_def thread_def rt_defs)
  have 6: "then_runs (EvCallTarget (fresh s)) (f a kw (world s)) s (thread_daemon f a kw s)"
    by (cases "f a kw (world s)"; cases "sched s (length (threads s))")
       (simp_all add: then_runs_def let_run_def thread_daemon_def rt_defs)
  have 7: "then_runs (EvCallFunction (fresh s)) (f a kw (world s)) s (delay d f a kw s)"
    if "number d = Some q" and "q \<le> TIMEOUT_MAX" for q
    using that
    by (cases "f a kw (world s)"; cases "sched s (length (threads s))"; cases "d = PNone")
       (simp_all add: then_runs_def let_run_def delay_def number_def rt_defs)
  have 8: "then_runs (EvCallFunction (fresh s)) (f a kw (world s)) s (delay_daemon d f a kw s)"
    if "number d = Some q" and "q \<le> TIMEOUT_MAX" for q
    using that
    by (cases "f a kw (world s)"; cases "sched s (length (threads s))"; cases "d = PNone")
       (simp_all add: then_runs_def let_run_def delay_daemon_def number_def rt_defs)
  show ?thesis using 1 2 3 4 5 6 7 8 by blast
qed

theorem fire_and_forget_wrappers_never_block_witness:
  "returned (thread forever [] [] (initial () (\<lambda>_. True))) = Some PNone \<and>
   returned (thread_daemon faulty [] [] (initial () (\<lambda>_. True))) = Some PNone \<and>
   returned (delay (PInt 3600) square [PInt 7] [] (initial () (\<lambda>_. True))) = Some PNone \<and>
   returned (delay_daemon PNone forever [] [] (initial () (\<lambda>_. True))) = Some PNone \<and>
   number (PInt 2) = Some 2 \<and> 2 \<le> TIMEOUT_MAX \<and>
   then_runs (EvCallFunction 0) (Returns (PInt 1) 1 1) (initial 0 on_demand)
     (delay (PInt 2) bump [] [] (initial 0 on_demand))"
proof -
  let ?s = "initial () (\<lambda>_. True)"
  have r: "returned r = Some PNone" if "fire_and_forget P d ?s r" for P d r
    using that by (cases r) (simp_all add: fire_and_forget_def returned_def)
  note a = fire_and_forget_wrappers_never_block [of forever "[]" "[]" ?s PNone]
  note b = fire_and_forget_wrappers_never_block [of faulty "[]" "[]" ?s PNone]
  note c = fire_and_forget_wrappers_never_block [of square "[PInt 7]" "[]" ?s "PInt 3600"]
  have 1: "returned (thread forever [] [] ?s) = Some PNone" using a r by blast
  have 2: "returned (thread_daemon faulty [] [] ?s) = Some PNone" using b r by blast
  have 3: "returned (delay (PInt 3600) square [PInt 7] [] ?s) = Some PNone" using c r by blast
  have 4: "returned (delay_daemon PNone forever [] [] ?s) = Some PNone" using a r by blast
  have n: "number (PInt 2) = Some 2" by (simp add: number_def)
  have m: "2 \<le> TIMEOUT_MAX" by (simp add: TIMEOUT_MAX_def)
  have 5: "then_runs (EvCallFunction 0) (Returns (PInt 1) 1 1) (initial 0 on_demand)
     (delay (PInt 2) bump [] [] (initial 0 on_demand))"
    using fire_and_forget_wrappers_never_block [of bump "[]" "[]" "initial 0 on_demand" "PInt 2"]
      n m
    by (simp add: bump_def initial_def fresh_def)
  show ?thesis using 1 2 3 4 5 n m by simp
qed


text \<open>
  Claim C8 says that \<^verbatim>\<open>thread_join(f)\<close> and \<^verbatim>\<open>delay_join(d)(f)\<close> come back only after the
  target has fully completed.  For a delay of \<^verbatim>\<open>10**10\<close> seconds, above
  \<^verbatim>\<open>threading.TIMEOUT_MAX\<close>, the timer's wait raises on the background unit and
  \<^verbatim>\<open>delay_join\<close> comes back at once: the target, which would have counted to \<^verbatim>\<open>1\<close>, was
  never called.
\<close>

theorem delay_join_beyond_TIMEOUT_MAX:
  "number (PInt 10000000000) = Some 10000000000 \<and>
   bump [] [] 0 = Returns (PInt 1) 1 1 \<and>
   observe (delay_join (PInt 10000000000) bump [] [] (initial 0 on_demand)) =
     Some (PNone, 0, 0,
       [EvStart 0, EvJoinCalled 0, EvUnhandled 0 OverflowError, EvJoinReturned 0])"
  by (simp add: observe_def on_demand_def TIMEOUT_MAX_def number_def bump_def initial_def
      delay_join_def rt_defs)

text \<open>
  Claim C8, amended: \<^verbatim>\<open>thread_join(f)\<close>, and \<^verbatim>\<open>delay_join(d)(f)\<close> for a delay \<open>d\<close> that is a
  number of seconds not above \<^verbatim>\<open>threading.TIMEOUT_MAX\<close>, come back only after the target has
  been called and has finished, with the target's side effects in place, and return
  \<^verbatim>\<open>None\<close>; when the target never comes back, neither do they.
\<close>

theorem joined_wrappers_wait_for_completion:
  "(\<forall>w dur. outcome (f a kw (world s)) = Some (w, dur) \<longrightarrow>
      waited_for (EvCallTarget (fresh s)) w (max 0 dur) s (thread_join f a kw s)) \<and>
   (f a kw (world s) = Hangs \<longrightarrow> thread_join f a kw s = Hang) \<and>
   (\<forall>q. number d = Some q \<and> q \<le> TIMEOUT_MAX \<longrightarrow>
      (\<forall>w dur. outcome (f a kw (world s)) = Some (w, dur) \<longrightarrow>
         waited_for (EvCallFunction (fresh s)) w (max 0 q + max 0 dur) s
           (delay_join d f a kw s)) \<and>
      (f a kw (world s) = Hangs \<longrightarrow> delay_join d f a kw s = Hang))"
proof -
  have 1: "waited_for (EvCallTarget (fresh s)) w (max 0 dur) s (thread_join f a kw s)"
    if "outcome (f a kw (world s)) = Some (w, dur)" for w dur
    using that
    by (cases "f a kw (world s)"; cases "sched s (length (threads s))")
       (simp_all add: waited_for_def outcome_def thread_join_def rt_defs)
  have 2: "thread_join f a kw s = Hang" if "f a kw (world s) = Hangs"
    using that
    by (cases "sched s (length (threads s))") (simp_all add: thread_join_def rt_defs)
  have 3: "waited_for (EvCallFunction (fresh s)) w (max 0 q + max 0 dur) s (delay_join d f a kw s)"
    if "number d = Some q" "q \<le> TIMEOUT_MAX" "outcome (f a kw (world s)) = Some (w, dur)"
    for q w dur
    using that
    by (cases "f a kw (world s)"; cases "sched s (length (threads s))"; cases "d = PNone")
       (simp_all add: waited_for_def outcome_def delay_join_def number_def rt_defs)
  have 4: "delay_join d f a kw s = Hang"
    if "number d = Some q" "q \<le> TIMEOUT_MAX" "f a kw (world s) = Hangs" for q
    using that
    by (cases "sched s (length (threads s))"; cases "d = PNone")
       (simp_all add: delay_join_def number_def rt_defs)
  show ?thesis using 1 2 3 4 by blast
qed

theorem joined_wrappers_wait_for_completion_witness:
  "number (PInt 2) = Some 2 \<and> 2 \<le> TIMEOUT_MAX \<and>
   outcome (bump [] [] (world (initial 0 (\<lambda>_. False)))) = Some (1, 1) \<and>
   waited_for (EvCallTarget 0) 1 1 (initial 0 (\<lambda>_. False))
     (thread_join bump [] [] (initial 0 (\<lambda>_. False))) \<and>
   waited_for (EvCallFunction 0) 1 3 (initial 0 (\<lambda>_. False))
     (delay_join (PInt 2) bump [] [] (initial 0 (\<lambda>_. False))) \<and>
   forever [] [] (world (initial (0::int) (\<lambda>_. False))) = Hangs \<and>
   thread_join forever [] [] (initial (0::int) (\<lambda>_. False)) = Hang \<and>
   delay_join (PInt 2) forever [] [] (initial (0::int) (\<lambda>_. False)) = Hang"
proof -
  have n: "number (PInt 2) = Some 2" by (simp add: number_def)
  have m: "2 \<le> TIMEOUT_MAX" by (simp add: TIMEOUT_MAX_def)
  show ?thesis
    using joined_wrappers_wait_for_completion [of bump "[]" "[]" "initial 0 (\<lambda>_. False)" "PInt 2"]
      joined_wrappers_wait_for_completion
        [of forever "[]" "[]" "initial (0::int) (\<lambda>_. False)" "PInt 2"]
      n m
    by (simp add: bump_def forever_def outcome_def initial_def fresh_def)
qed





text \<open>
  Claim C10: the empty value of the result slot is \<^verbatim>\<open>None\<close>, so
  \<^verbatim>\<open>delay_with_return_value(d)(f)(*a)\<close> gives the same result for a target that returns
  \<^verbatim>\<open>None\<close> and for a target that raises.
\<close>

theorem None_result_hides_failure:
  "f a kw (world s) = Returns PNone w dur \<Longrightarrow> g a' kw' (world s') = Raises e w' dur' \<Longrightarrow>
   returned (delay_with_return_value d f a kw s) =
     returned (delay_with_return_value d g a' kw' s') \<and>
   (d \<noteq> PNone \<longrightarrow> returned (delay_with_return_value d f a kw s) = Some PNone) \<and>
   return_value (obj (snd (FunctionThreadWithReturnValue_init f a kw s)) (fresh s)) = PNone \<and>
   return_value (obj (snd (DelayedFunctionWithReturnValue_init d f a kw s)) (fresh s)) = PNone"
  by (cases "number d"; cases "0 < the (number d) \<and> TIMEOUT_MAX < the (number d)";
      cases "sched s (length (threads s))"; cases "sched s' (length (threads s'))")
     (simp_all add: delay_with_return_value_def returned_def rt_defs)

theorem None_result_hides_failure_witness:
  "nothing [] [] (world (initial () (\<lambda>_. False))) = Returns PNone () 0 \<and>
   faulty [] [] (world (initial () (\<lambda>_. False))) = Raises (OtherError ''ValueError'') () 0 \<and>
   returned (delay_with_return_value (PInt 1) nothing [] [] (initial () (\<lambda>_. False))) = Some PNone \<and>
   returned (delay_with_return_value (PInt 1) faulty [] [] (initial () (\<lambda>_. False))) = Some PNone"
proof -
  let ?s = "initial () (\<lambda>_. False)"
  have f: "nothing [] [] (world ?s) = Returns PNone () 0" by (simp add: nothing_def initial_def)
  have g: "faulty [] [] (world ?s) = Raises (OtherError ''ValueError'') () 0"
    by (simp add: faulty_def initial_def)
  note h = None_result_hides_failure [of nothing "[]" "[]" ?s "()" 0
      faulty "[]" "[]" ?s "OtherError ''ValueError''" "()" 0 "PInt 1", OF f g]
  from h have 1: "returned (delay_with_return_value (PInt 1) nothing [] [] ?s) = Some PNone"
    by auto
  from h have "returned (delay_with_return_value (PInt 1) nothing [] [] ?s) =
      returned (delay_with_return_value (PInt 1) faulty [] [] ?s)"
    by (rule conjunct1)
  with 1 have 2: "returned (delay_with_return_value (PInt 1) faulty [] [] ?s) = Some PNone"
    by simp
  show ?thesis using f g 1 2 by simp
qed


end
